theory Spec2Isabelle
  imports Complex_Main "HOL-Library.Sublist" "HOL-Library.Product_Lexorder" "HOL-Library.Multiset"
begin

unbundle bit_operations_syntax

section \<open>Python text primitives used by the schedule manager\<close>

text \<open>
  Text is a list of characters. The characters of the model are the code points
  0..255; \<open>py_isspace\<close> is Python's \<open>str.isspace\<close> on that range, which is what
  \<open>str.strip()\<close> and \<open>str.split()\<close> (without arguments) consult.
\<close>

datatype py_error = ValueError | OverflowError | NameError

definition py_isspace :: "char \<Rightarrow> bool" where
  "py_isspace c = (c \<in> set [CHR 0x09, CHR 0x0A, CHR 0x0B, CHR 0x0C, CHR 0x0D,
                             CHR 0x1C, CHR 0x1D, CHR 0x1E, CHR 0x1F, CHR 0x20,
                             CHR 0x85, CHR 0xA0])"

text \<open>\<open>s.lstrip()\<close>, \<open>s.rstrip()\<close>, \<open>s.strip()\<close>\<close>

definition py_lstrip :: "string \<Rightarrow> string" where
  "py_lstrip s = dropWhile py_isspace s"

definition py_rstrip :: "string \<Rightarrow> string" where
  "py_rstrip s = rev (dropWhile py_isspace (rev s))"

definition py_strip :: "string \<Rightarrow> string" where
  "py_strip s = py_rstrip (py_lstrip s)"

text \<open>\<open>s.lstrip(chars)\<close>: drops every leading character that occurs in \<open>chars\<close>.\<close>

definition py_lstrip_chars :: "string \<Rightarrow> string \<Rightarrow> string" where
  "py_lstrip_chars chars s = dropWhile (\<lambda>c. c \<in> set chars) s"

text \<open>\<open>s.split(sep)\<close> for a one-character separator: never empty, keeps empty fields.\<close>

fun py_split_on :: "char \<Rightarrow> string \<Rightarrow> string list" where
  "py_split_on sep [] = [[]]"
| "py_split_on sep (c # cs) =
     (if c = sep then [] # py_split_on sep cs
      else (case py_split_on sep cs of
              [] \<Rightarrow> [[c]]
            | l # ls \<Rightarrow> (c # l) # ls))"

text \<open>\<open>s.split()\<close>: the maximal runs of non-whitespace characters, in order.
  The first argument is the word read so far.\<close>

fun split_ws_acc :: "string \<Rightarrow> string \<Rightarrow> string list" where
  "split_ws_acc w [] = (if w = [] then [] else [w])"
| "split_ws_acc w (c # cs) =
     (if py_isspace c
      then (if w = [] then split_ws_acc [] cs else w # split_ws_acc [] cs)
      else split_ws_acc (w @ [c]) cs)"

definition py_split_ws :: "string \<Rightarrow> string list" where
  "py_split_ws s = split_ws_acc [] s"

text \<open>\<open>sep.join(xs)\<close>\<close>

fun py_join :: "string \<Rightarrow> string list \<Rightarrow> string" where
  "py_join sep [] = []"
| "py_join sep [x] = x"
| "py_join sep (x # y # ys) = x @ sep @ py_join sep (y # ys)"

text \<open>\<open>sub in s\<close> is \<^const>\<open>sublist\<close>, \<open>s.startswith(p)\<close> is \<^const>\<open>prefix\<close>,
  \<open>s.endswith(p)\<close> is \<^const>\<open>suffix\<close>.\<close>

text \<open>\<open>s.replace(old, new)\<close>: scans from the left; wherever \<open>old\<close> starts, \<open>new\<close> is
  emitted and the scan resumes behind that occurrence. For an empty \<open>old\<close> Python
  puts \<open>new\<close> before every character and at the end.\<close>

function replace_scan :: "string \<Rightarrow> string \<Rightarrow> string \<Rightarrow> string" where
  "replace_scan old new [] = []"
| "replace_scan old new (c # cs) =
     (if old \<noteq> [] \<and> prefix old (c # cs)
      then new @ replace_scan old new (drop (length old) (c # cs))
      else c # replace_scan old new cs)"
  by pat_completeness auto
termination
  by (relation "measure (\<lambda>(old, new, s). length s)") (auto simp: neq_Nil_conv)

definition py_replace :: "string \<Rightarrow> string \<Rightarrow> string \<Rightarrow> string" where
  "py_replace old new s =
     (if old = [] then new @ concat (map (\<lambda>c. c # new) s)
      else replace_scan old new s)"

text \<open>\<open>int(s)\<close> on text: surrounding whitespace is dropped, one sign is allowed, and the
  digits may be separated by single underscores. Anything else raises ValueError.\<close>

definition is_digit :: "char \<Rightarrow> bool" where
  "is_digit c = (c \<in> set ''0123456789'')"

definition digit_val :: "char \<Rightarrow> int" where
  "digit_val c = int (of_char c) - 48"

fun int_body_ok :: "string \<Rightarrow> bool" where
  "int_body_ok [] = False"
| "int_body_ok [c] = is_digit c"
| "int_body_ok (c # d # cs) =
     (is_digit c \<and> (if d = CHR ''_'' then int_body_ok cs else int_body_ok (d # cs)))"

definition int_body_val :: "string \<Rightarrow> int" where
  "int_body_val body = foldl (\<lambda>a c. 10 * a + digit_val c) 0 (filter is_digit body)"

definition py_int :: "string \<Rightarrow> py_error + int" where
  "py_int s =
     (let t = py_strip s;
          neg = (t \<noteq> [] \<and> hd t = CHR ''-'');
          body = (if t \<noteq> [] \<and> (hd t = CHR ''-'' \<or> hd t = CHR ''+'') then tl t else t)
      in if int_body_ok body
         then Inr (if neg then - int_body_val body else int_body_val body)
         else Inl ValueError)"

section \<open>Weekday sets\<close>

text \<open>\<open>cron_to_python_weekday\<close>: crontab counts 0 = Sunday, Python 0 = Monday.\<close>

definition cron_to_python_weekday :: "int \<Rightarrow> int" where
  "cron_to_python_weekday cron_wd = (if cron_wd = 0 then 6 else cron_wd - 1)"

text \<open>The body of the loop of \<open>parse_weekday\<close> for one comma-separated part.
  \<open>start, end = part.split('-')\<close> raises ValueError unless there are exactly two pieces.\<close>

definition parse_weekday_part :: "string \<Rightarrow> py_error + int list" where
  "parse_weekday_part part =
     (if sublist ''-'' part
      then (case py_split_on CHR ''-'' part of
              [start, end] \<Rightarrow>
                (case py_int start of
                   Inl e \<Rightarrow> Inl e
                 | Inr a \<Rightarrow>
                     (case py_int end of
                        Inl e \<Rightarrow> Inl e
                      | Inr b \<Rightarrow> Inr (map cron_to_python_weekday [a..b])))
            | _ \<Rightarrow> Inl ValueError)
      else (case py_int part of
              Inl e \<Rightarrow> Inl e
            | Inr n \<Rightarrow> Inr [cron_to_python_weekday n]))"

text \<open>The loop over the parts: \<open>weekdays\<close> grows, the first exception ends the call.\<close>

fun parse_weekday_parts :: "int list \<Rightarrow> string list \<Rightarrow> py_error + int list" where
  "parse_weekday_parts weekdays [] = Inr weekdays"
| "parse_weekday_parts weekdays (part # parts) =
     (case parse_weekday_part part of
        Inl e \<Rightarrow> Inl e
      | Inr ws \<Rightarrow> parse_weekday_parts (weekdays @ ws) parts)"

definition parse_weekday :: "string \<Rightarrow> py_error + int list" where
  "parse_weekday weekday_str =
     (if weekday_str = ''*'' then Inr [0..6]
      else parse_weekday_parts [] (py_split_on CHR '','' weekday_str))"

section \<open>Data model\<close>

text \<open>The dictionary that \<open>parse_crontab_line\<close> returns for one job line.\<close>

record schedule =
  sched_id :: int
  minute :: string
  hour :: string
  day :: string
  month :: string
  weekday :: string
  action :: string
  command :: string
  enabled :: bool
  raw :: string

text \<open>The dictionary handed to \<open>add_schedule\<close> and \<open>build_crontab_line\<close>. The keys
  read with \<open>schedule.get\<close> may be missing; the five time fields are read with
  \<open>schedule[...]\<close>.\<close>

record schedule_dict =
  d_minute :: string
  d_hour :: string
  d_day :: string
  d_month :: string
  d_weekday :: string
  d_action :: "string option"
  d_command :: "string option"
  d_enabled :: "bool option"

text \<open>The dictionary handed to \<open>update_schedule\<close>: every key is read with \<open>updates.get\<close>.\<close>

record updates =
  u_minute :: "string option"
  u_hour :: "string option"
  u_day :: "string option"
  u_month :: "string option"
  u_weekday :: "string option"
  u_action :: "string option"
  u_enabled :: "bool option"

text \<open>What the module takes from its surroundings: Python's built-in \<open>hash\<close> on text
  (seeded per process) and the directory of the installed script, the value of
  \<open>get_script_dir()\<close>.\<close>

record env =
  py_hash :: "string \<Rightarrow> int"
  script_dir :: string

text \<open>The job table of the host. \<open>listing\<close> is what \<open>crontab -l\<close> prints, \<open>None\<close> when it
  fails (no table installed); \<open>writable\<close> says whether \<open>crontab -\<close> succeeds; \<open>writes\<close>
  counts the calls of \<open>set_crontab\<close>.\<close>

record world =
  listing :: "string option"
  writable :: bool
  writes :: nat

definition NL :: char where
  "NL = CHR 0x0A"

definition get_crontab :: "world \<Rightarrow> string" where
  "get_crontab w = (case listing w of None \<Rightarrow> [] | Some t \<Rightarrow> t)"

definition set_crontab :: "string \<Rightarrow> world \<Rightarrow> bool \<times> world" where
  "set_crontab content w =
     (if writable w
      then (True, w\<lparr>listing := Some content, writes := writes w + 1\<rparr>)
      else (False, w\<lparr>writes := writes w + 1\<rparr>))"

section \<open>Parsing and building job lines\<close>

definition parse_crontab_line :: "env \<Rightarrow> string \<Rightarrow> schedule option" where
  "parse_crontab_line e line =
     (let enabled = \<not> prefix ''#'' (py_strip line);
          clean_line = py_strip (py_lstrip_chars ''# '' line);
          parts = py_split_ws clean_line
      in if length parts < 6 then None
         else
           (let command = py_join '' '' (drop 5 parts);
                action = (if sublist ''up'' command then ''on''
                          else if sublist ''check_and_off'' command then ''off''
                          else ''off'')
            in Some \<lparr>sched_id = py_hash e line AND 0x7FFFFFFF,
                     minute = parts ! 0,
                     hour = parts ! 1,
                     day = parts ! 2,
                     month = parts ! 3,
                     weekday = parts ! 4,
                     action = action,
                     command = command,
                     enabled = enabled,
                     raw = line\<rparr>))"

text \<open>The test of \<open>extract_iptv_schedules\<close> on a stripped line.\<close>

definition is_iptv_line :: "string \<Rightarrow> bool" where
  "is_iptv_line line =
     (let clean_line = py_strip (py_replace ''#'' [] line)
      in sublist ''ip link set ens1'' line \<or> sublist ''ip link set ens1'' clean_line
         \<or> sublist ''check_and_off.sh'' line \<or> sublist ''check_and_off.sh'' clean_line)"

text \<open>The body of the loop of \<open>extract_iptv_schedules\<close>: the record a line contributes.\<close>

definition extract_line :: "env \<Rightarrow> string \<Rightarrow> schedule option" where
  "extract_line e line0 =
     (let line = py_strip line0
      in if line = [] then None
         else if is_iptv_line line then parse_crontab_line e line
         else None)"

definition extract_iptv_schedules :: "env \<Rightarrow> string \<Rightarrow> schedule list" where
  "extract_iptv_schedules e crontab_content =
     List.map_filter (extract_line e) (py_split_on NL crontab_content)"

text \<open>\<open>os.path.join(a, b)\<close> on POSIX paths.\<close>

definition os_path_join :: "string \<Rightarrow> string \<Rightarrow> string" where
  "os_path_join a b =
     (if prefix ''/'' b then b
      else if a = [] \<or> suffix ''/'' a then a @ b
      else a @ ''/'' @ b)"

definition script_path :: "env \<Rightarrow> string" where
  "script_path e = os_path_join (script_dir e) ''check_and_off.sh''"

definition build_crontab_line :: "env \<Rightarrow> schedule_dict \<Rightarrow> string" where
  "build_crontab_line e schedule =
     (let command = (if d_action schedule = Some ''off'' then script_path e
                     else (case d_command schedule of
                             None \<Rightarrow> ''/sbin/ip link set ens1 up''
                           | Some c \<Rightarrow> c));
          line = d_minute schedule @ '' '' @ d_hour schedule @ '' '' @ d_day schedule
                 @ '' '' @ d_month schedule @ '' '' @ d_weekday schedule @ '' '' @ command
      in if \<not> (case d_enabled schedule of None \<Rightarrow> True | Some b \<Rightarrow> b)
         then ''# '' @ line else line)"

section \<open>Registry operations on the job table\<close>

definition add_schedule :: "env \<Rightarrow> schedule_dict \<Rightarrow> world \<Rightarrow> bool \<times> world" where
  "add_schedule e schedule w =
     (let crontab = get_crontab w;
          new_line = build_crontab_line e schedule;
          crontab1 = (if crontab \<noteq> [] \<and> \<not> suffix [NL] crontab
                      then crontab @ [NL] else crontab);
          crontab2 = crontab1 @ new_line @ [NL]
      in set_crontab crontab2 w)"

definition delete_schedule :: "env \<Rightarrow> int \<Rightarrow> world \<Rightarrow> bool \<times> world" where
  "delete_schedule e schedule_id w =
     (let crontab = get_crontab w;
          schedules = extract_iptv_schedules e crontab
      in case find (\<lambda>s. sched_id s = schedule_id) schedules of
           None \<Rightarrow> (False, w)
         | Some target \<Rightarrow>
             (let lines = py_split_on NL crontab;
                  new_lines = filter (\<lambda>line. \<not> sublist (raw target) line) lines
              in set_crontab (py_join [NL] new_lines) w))"

definition manual_on_command :: string where
  "manual_on_command =
     ''/sbin/ip link set ens1 up && /usr/bin/logger '' @ [CHR 0x22]
     @ ''IPTV RESTORED: manual schedule'' @ [CHR 0x22]"

text \<open>The dictionary \<open>new_schedule\<close> that \<open>update_schedule\<close> builds from the updates,
  with its command.\<close>

definition new_schedule_of :: "env \<Rightarrow> updates \<Rightarrow> schedule_dict" where
  "new_schedule_of e upd =
     (let act = (case u_action upd of None \<Rightarrow> ''off'' | Some a \<Rightarrow> a)
      in \<lparr>d_minute = (case u_minute upd of None \<Rightarrow> ''0'' | Some v \<Rightarrow> v),
          d_hour = (case u_hour upd of None \<Rightarrow> ''0'' | Some v \<Rightarrow> v),
          d_day = (case u_day upd of None \<Rightarrow> ''*'' | Some v \<Rightarrow> v),
          d_month = (case u_month upd of None \<Rightarrow> ''*'' | Some v \<Rightarrow> v),
          d_weekday = (case u_weekday upd of None \<Rightarrow> ''*'' | Some v \<Rightarrow> v),
          d_action = Some act,
          d_command = Some (if act = ''on'' then manual_on_command else script_path e),
          d_enabled = Some (case u_enabled upd of None \<Rightarrow> True | Some b \<Rightarrow> b)\<rparr>)"

definition update_schedule :: "env \<Rightarrow> int \<Rightarrow> updates \<Rightarrow> world \<Rightarrow> bool \<times> world" where
  "update_schedule e schedule_id upd w =
     (case delete_schedule e schedule_id w of
        (False, w') \<Rightarrow> (False, w')
      | (True, w') \<Rightarrow> add_schedule e (new_schedule_of e upd) w')"



section \<open>Instants and the next run of a schedule\<close>

text \<open>
  A \<open>datetime\<close> without time zone. The calendar day is kept as its proleptic Gregorian
  ordinal (\<open>date.toordinal()\<close>, 1 for 0001-01-01), which is how Python itself computes
  \<open>weekday()\<close> and adds a \<open>timedelta\<close>; comparison of instants is the lexicographic
  order of day, hour, minute, second and microsecond.
\<close>

record datetime =
  dt_ordinal :: int
  dt_hour :: int
  dt_minute :: int
  dt_second :: int
  dt_microsecond :: int

definition MAXORDINAL :: int where
  "MAXORDINAL = 3652059"

definition valid_datetime :: "datetime \<Rightarrow> bool" where
  "valid_datetime t =
     (1 \<le> dt_ordinal t \<and> dt_ordinal t \<le> MAXORDINAL
      \<and> 0 \<le> dt_hour t \<and> dt_hour t \<le> 23
      \<and> 0 \<le> dt_minute t \<and> dt_minute t \<le> 59
      \<and> 0 \<le> dt_second t \<and> dt_second t \<le> 59
      \<and> 0 \<le> dt_microsecond t \<and> dt_microsecond t \<le> 999999)"

definition datetime_max :: datetime where
  "datetime_max = \<lparr>dt_ordinal = MAXORDINAL, dt_hour = 23, dt_minute = 59,
                    dt_second = 59, dt_microsecond = 999999\<rparr>"

definition dt_key :: "datetime \<Rightarrow> int \<times> int \<times> int \<times> int \<times> int" where
  "dt_key t = (dt_ordinal t, dt_hour t, dt_minute t, dt_second t, dt_microsecond t)"

definition dt_less :: "datetime \<Rightarrow> datetime \<Rightarrow> bool" where
  "dt_less a b = (dt_key a < dt_key b)"

definition dt_weekday :: "datetime \<Rightarrow> int" where
  "dt_weekday t = (dt_ordinal t + 6) mod 7"

text \<open>\<open>t.replace(hour=h, minute=m)\<close> raises ValueError outside 0..23 and 0..59.\<close>

definition dt_replace_hm :: "datetime \<Rightarrow> int \<Rightarrow> int \<Rightarrow> py_error + datetime" where
  "dt_replace_hm t h m =
     (if 0 \<le> h \<and> h \<le> 23 \<and> 0 \<le> m \<and> m \<le> 59
      then Inr (t\<lparr>dt_hour := h, dt_minute := m\<rparr>)
      else Inl ValueError)"

text \<open>\<open>t + timedelta(days=1)\<close> raises OverflowError behind the last day of year 9999.\<close>

definition dt_add_day :: "datetime \<Rightarrow> py_error + datetime" where
  "dt_add_day t =
     (if dt_ordinal t + 1 > MAXORDINAL then Inl OverflowError
      else Inr (t\<lparr>dt_ordinal := dt_ordinal t + 1\<rparr>))"

text \<open>The loop \<open>for _ in range(8)\<close>; the first argument is the number of rounds left.\<close>

fun next_run_loop ::
  "nat \<Rightarrow> int list \<Rightarrow> int \<Rightarrow> int \<Rightarrow> datetime \<Rightarrow> datetime \<Rightarrow> py_error + datetime option"
where
  "next_run_loop 0 weekdays h m check_time from_time = Inr None"
| "next_run_loop (Suc n) weekdays h m check_time from_time =
     (if dt_weekday check_time \<in> set weekdays
      then (case dt_replace_hm check_time h m of
              Inl e \<Rightarrow> Inl e
            | Inr run_time \<Rightarrow>
                if dt_less from_time run_time then Inr (Some run_time)
                else (case dt_add_day check_time of
                        Inl e \<Rightarrow> Inl e
                      | Inr c \<Rightarrow> next_run_loop n weekdays h m c from_time))
      else (case dt_add_day check_time of
              Inl e \<Rightarrow> Inl e
            | Inr c \<Rightarrow> next_run_loop n weekdays h m c from_time))"

text \<open>The body of the \<open>try\<close> block of \<open>calculate_next_run\<close>.\<close>

definition next_run_try :: "schedule \<Rightarrow> datetime \<Rightarrow> py_error + datetime option" where
  "next_run_try s from_time =
     (case py_int (hour s) of
        Inl e \<Rightarrow> Inl e
      | Inr h \<Rightarrow>
          (case py_int (minute s) of
             Inl e \<Rightarrow> Inl e
           | Inr m \<Rightarrow>
               (case parse_weekday (weekday s) of
                  Inl e \<Rightarrow> Inl e
                | Inr weekdays \<Rightarrow>
                    next_run_loop 8 weekdays h m
                      (from_time\<lparr>dt_second := 0, dt_microsecond := 0\<rparr>) from_time)))"

definition calculate_next_run :: "schedule \<Rightarrow> datetime \<Rightarrow> datetime option" where
  "calculate_next_run s from_time =
     (case next_run_try s from_time of Inl e \<Rightarrow> None | Inr r \<Rightarrow> r)"

text \<open>The key \<open>sort_key\<close> of \<open>get_all_schedules\<close>, as the tuple instants are compared by.\<close>

definition schedule_sort_key :: "datetime \<Rightarrow> schedule \<Rightarrow> int \<times> int \<times> int \<times> int \<times> int" where
  "schedule_sort_key now s =
     (case calculate_next_run s now of
        Some next_run \<Rightarrow> dt_key next_run
      | None \<Rightarrow> dt_key datetime_max)"

text \<open>\<open>list.sort(key=...)\<close> is a stable sort, as \<^const>\<open>sort_key\<close> is.\<close>

definition get_all_schedules :: "env \<Rightarrow> datetime \<Rightarrow> world \<Rightarrow> schedule list" where
  "get_all_schedules e now w =
     sort_key (schedule_sort_key now) (extract_iptv_schedules e (get_crontab w))"

section \<open>The override timer and the recurring off action\<close>

text \<open>\<open>should_skip_crontab_off\<close> of app.py: \<open>timer_end_time\<close> is the module's global, the
  second argument is the value of \<open>time.time()\<close>.\<close>

definition app_should_skip_crontab_off :: "real option \<Rightarrow> real \<Rightarrow> bool" where
  "app_should_skip_crontab_off timer_end_time now =
     (case timer_end_time of
        None \<Rightarrow> False
      | Some t \<Rightarrow> (let remaining = t - now in if remaining > 0 then True else False))"

text \<open>The names bound at module level in crontab_manager.py: its imports, its two
  constants and its functions.\<close>

definition crontab_manager_globals :: "string list" where
  "crontab_manager_globals =
     [''subprocess'', ''re'', ''json'', ''os'', ''datetime'', ''timedelta'',
      ''CRONTAB_MARKER_START'', ''CRONTAB_MARKER_END'',
      ''get_crontab'', ''set_crontab'', ''extract_iptv_schedules'', ''parse_crontab_line'',
      ''get_script_dir'', ''build_crontab_line'', ''get_all_schedules'', ''add_schedule'',
      ''delete_schedule'', ''update_schedule'', ''toggle_schedule'', ''get_next_schedule'',
      ''get_next_schedule_by_action'', ''get_next_schedules'', ''calculate_next_run'',
      ''parse_weekday'', ''cron_to_python_weekday'', ''should_skip_crontab_off'']"

text \<open>\<open>should_skip_crontab_off\<close> of crontab_manager.py: the first argument is the value
  that \<open>from app import timer_end_time\<close> binds. The name \<open>time\<close> in \<open>time.time()\<close> is
  looked up among the module's globals, and raises NameError when it is not there.\<close>

definition cm_should_skip_crontab_off :: "real option \<Rightarrow> real \<Rightarrow> py_error + bool" where
  "cm_should_skip_crontab_off timer_end_time now =
     (case timer_end_time of
        None \<Rightarrow> Inr False
      | Some t \<Rightarrow>
          (if ''time'' \<in> set crontab_manager_globals
           then (let remaining = t - now in if remaining > 0 then Inr True else Inr False)
           else Inl NameError))"

section \<open>Sample surroundings for concrete runs\<close>

text \<open>A stand-in for the per-process \<open>hash\<close>, the install directory of the reference
  deployment, and a table with one unrelated job and two schedule lines.\<close>

definition sample_env :: env where
  "sample_env = \<lparr>py_hash = (\<lambda>s. int (length s)), script_dir = ''/opt/iptvctl''\<rparr>"

definition sample_table :: string where
  "sample_table =
     ''30 2 * * * /usr/bin/backup.sh'' @ [NL]
     @ ''0 17 * * 1-5 /opt/iptvctl/check_and_off.sh'' @ [NL]
     @ ''# 30 7 * * * /sbin/ip link set ens1 up'' @ [NL]"

definition sample_world :: world where
  "sample_world = \<lparr>listing = Some sample_table, writable = True, writes = 0\<rparr>"

text \<open>A weekday schedule at 17:00, and Tuesday 2026-11-03 18:00:30 (ordinal 739923).\<close>

definition sample_schedule :: schedule where
  "sample_schedule =
     \<lparr>sched_id = 42, minute = ''0'', hour = ''17'', day = ''*'', month = ''*'',
      weekday = ''1-5'', action = ''off'', command = ''/opt/iptvctl/check_and_off.sh'',
      enabled = True, raw = ''0 17 * * 1-5 /opt/iptvctl/check_and_off.sh''\<rparr>"

definition sample_from :: datetime where
  "sample_from = \<lparr>dt_ordinal = 739923, dt_hour = 18, dt_minute = 0, dt_second = 30,
                    dt_microsecond = 0\<rparr>"

text \<open>A table whose first schedule line never runs (weekday 9 converts to 8).\<close>

definition sample_table_unsorted :: string where
  "sample_table_unsorted =
     ''0 17 * * 9 /opt/iptvctl/check_and_off.sh'' @ [NL]
     @ ''30 2 * * * /usr/bin/backup.sh'' @ [NL]
     @ ''0 17 * * 1-5 /opt/iptvctl/check_and_off.sh'' @ [NL]
     @ ''# 30 7 * * * /sbin/ip link set ens1 up'' @ [NL]"

definition sample_world_unsorted :: world where
  "sample_world_unsorted = \<lparr>listing = Some sample_table_unsorted, writable = True, writes = 0\<rparr>"

text \<open>A request whose minute field starts with the comment character.\<close>

definition hash_minute_dict :: schedule_dict where
  "hash_minute_dict =
     \<lparr>d_minute = ''#5'', d_hour = ''0'', d_day = ''*'', d_month = ''*'', d_weekday = ''*'',
      d_action = Some ''on'', d_command = Some ''/sbin/ip link set ens1 up'',
      d_enabled = Some True\<rparr>"

text \<open>A request as the web form sends it: on at 7:30 on working days, disabled.\<close>

definition sample_dict :: schedule_dict where
  "sample_dict =
     \<lparr>d_minute = ''30'', d_hour = ''7'', d_day = ''*'', d_month = ''*'', d_weekday = ''1-5'',
      d_action = Some ''on'', d_command = Some ''/sbin/ip link set ens1 up'',
      d_enabled = Some False\<rparr>"






section \<open>The specification's wording of the next run\<close>

text \<open>Following the specification, not the code: an instant qualifies as a run of
  the schedule with weekday set \<open>weekdays\<close>, hour \<open>h\<close> and minute \<open>m\<close> after
  \<open>from_time\<close> when it is an instant of the calendar, strictly later than
  \<open>from_time\<close>, on one of the 8 days starting at the day of \<open>from_time\<close>, on a weekday
  of the set, at \<open>h:m:00\<close>.\<close>

definition spec_run_candidate :: "int list \<Rightarrow> int \<Rightarrow> int \<Rightarrow> datetime \<Rightarrow> datetime \<Rightarrow> bool" where
  "spec_run_candidate weekdays h m from_time t =
     (valid_datetime t \<and> dt_less from_time t
      \<and> dt_ordinal from_time \<le> dt_ordinal t \<and> dt_ordinal t \<le> dt_ordinal from_time + 7
      \<and> dt_weekday t \<in> set weekdays
      \<and> dt_hour t = h \<and> dt_minute t = m \<and> dt_second t = 0 \<and> dt_microsecond t = 0)"

text \<open>Names for the proofs about the loop: the instant \<open>h:m:00\<close> of the day with ordinal
  \<open>d\<close>, and the test a round of the loop makes on that day.\<close>

definition run_at :: "int \<Rightarrow> int \<Rightarrow> int \<Rightarrow> datetime" where
  "run_at d h m = \<lparr>dt_ordinal = d, dt_hour = h, dt_minute = m, dt_second = 0, dt_microsecond = 0\<rparr>"

definition good_day :: "int list \<Rightarrow> int \<Rightarrow> int \<Rightarrow> datetime \<Rightarrow> int \<Rightarrow> bool" where
  "good_day weekdays h m from_time d =
     ((d + 6) mod 7 \<in> set weekdays \<and> dt_less from_time (run_at d h m))"

text \<open>A time field as the claims about job lines take it: not empty and without
  whitespace.\<close>

definition plain_field :: "string \<Rightarrow> bool" where
  "plain_field f = (f \<noteq> [] \<and> \<not> list_ex py_isspace f)"

text \<open>A line carries a command marker of this system when, comment characters
  removed, it contains the interface command or the name of the off script. The
  proofs show that this is the test of \<open>extract_iptv_schedules\<close>.\<close>

definition has_marker :: "string \<Rightarrow> bool" where
  "has_marker l =
     (sublist ''ip link set ens1'' (filter (\<lambda>c. c \<noteq> CHR ''#'') l)
      \<or> sublist ''check_and_off.sh'' (filter (\<lambda>c. c \<noteq> CHR ''#'') l))"


section \<open>Facts about the text primitives\<close>


lemma py_split_on_no_sep: "sep \<notin> set a \<Longrightarrow> py_split_on sep a = [a]"
  by (induction a) auto

lemma py_split_on_append:
  "sep \<notin> set a \<Longrightarrow> py_split_on sep (a @ sep # b) = a # py_split_on sep b"
  by (induction a) auto

lemma py_split_on_join:
  "ps \<noteq> [] \<Longrightarrow> \<forall>p\<in>set ps. sep \<notin> set p \<Longrightarrow> py_split_on sep (py_join [sep] ps) = ps"
proof (induction ps rule: induct_list012)
  case 1
  then show ?case by simp
next
  case (2 x)
  then show ?case by (simp add: py_split_on_no_sep)
next
  case (3 x y ys)
  then show ?case by (simp add: py_split_on_append)
qed

lemma sublist_single: "sublist [c] s \<longleftrightarrow> c \<in> set s"
  by (induction s) (auto simp: sublist_Cons_right)

lemma space_is_space: "py_isspace CHR '' ''"
  by (simp add: py_isspace_def)


lemma sublist_sep:
  assumes "c \<notin> set u" "u \<noteq> []"
  shows "sublist u (a @ c # b) \<longleftrightarrow> sublist u a \<or> sublist u b"
proof
  assume "sublist u (a @ c # b)"
  then consider "sublist u a" | "sublist u (c # b)"
    | xs1 xs2 where "u = xs1 @ xs2" "suffix xs1 a" "prefix xs2 (c # b)"
    by (auto simp: sublist_append)
  then show "sublist u a \<or> sublist u b"
  proof cases
    case 1
    then show ?thesis by simp
  next
    case 2
    then have "prefix u (c # b) \<or> sublist u b" by (simp add: sublist_Cons_right)
    moreover have "\<not> prefix u (c # b)"
      using assms by (cases u) (auto simp: prefix_Cons)
    ultimately show ?thesis by simp
  next
    case 3
    have "xs2 = []"
    proof (cases xs2)
      case Nil
      then show ?thesis .
    next
      case (Cons x xs)
      with 3(3) have "x = c" by simp
      with Cons 3(1) assms(1) show ?thesis by simp
    qed
    with 3 have "suffix u a" by simp
    then show ?thesis by (auto dest: suffix_imp_sublist)
  qed
next
  assume "sublist u a \<or> sublist u b"
  then show "sublist u (a @ c # b)"
    by (auto simp: sublist_append sublist_Cons_right)
qed


lemma split_ws_acc_plain:
  "\<forall>c\<in>set t. \<not> py_isspace c \<Longrightarrow> split_ws_acc w (t @ s) = split_ws_acc (w @ t) s"
  by (induction t arbitrary: w) auto


lemma split_ws_acc_all_space:
  "\<forall>c\<in>set t. py_isspace c \<Longrightarrow> split_ws_acc w t = (if w = [] then [] else [w])"
  by (induction t arbitrary: w) auto


lemma split_ws_acc_trailing:
  "\<forall>c\<in>set t. py_isspace c \<Longrightarrow> split_ws_acc w (s @ t) = split_ws_acc w s"
  by (induction s arbitrary: w) (auto simp: split_ws_acc_all_space)


lemma split_ws_acc_leading:
  "split_ws_acc [] (dropWhile py_isspace s) = split_ws_acc [] s"
  by (induction s) auto


lemma py_rstrip_decomp: "\<exists>t. s = py_rstrip s @ t \<and> (\<forall>c\<in>set t. py_isspace c)"
proof -
  have "rev s = takeWhile py_isspace (rev s) @ dropWhile py_isspace (rev s)" by simp
  then have "s = rev (dropWhile py_isspace (rev s)) @ rev (takeWhile py_isspace (rev s))"
    by (metis rev_append rev_rev_ident)
  moreover have "\<forall>c\<in>set (rev (takeWhile py_isspace (rev s))). py_isspace c"
    by (auto dest: set_takeWhileD)
  ultimately show ?thesis unfolding py_rstrip_def by blast
qed


lemma py_split_ws_rstrip: "py_split_ws (py_rstrip s) = py_split_ws s"
proof -
  obtain t where "s = py_rstrip s @ t" "\<forall>c\<in>set t. py_isspace c"
    using py_rstrip_decomp by blast
  then show ?thesis
    unfolding py_split_ws_def using split_ws_acc_trailing[of t "[]" "py_rstrip s"] by simp
qed


lemma py_split_ws_strip: "py_split_ws (py_strip s) = py_split_ws s"
  by (simp add: py_strip_def py_split_ws_rstrip py_lstrip_def)
     (simp add: py_split_ws_def split_ws_acc_leading)


lemma py_split_ws_token:
  assumes "plain_field t" "py_isspace c"
  shows "py_split_ws (t @ c # s) = t # py_split_ws s"
proof -
  from assms(1) have t: "t \<noteq> []" "\<forall>c\<in>set t. \<not> py_isspace c"
    by (auto simp: plain_field_def list_ex_iff)
  show ?thesis
    unfolding py_split_ws_def split_ws_acc_plain[OF t(2)] using t(1) assms(2) by simp
qed


lemma sublist_split_ws_acc:
  assumes "u \<noteq> []" "\<forall>c\<in>set u. \<not> py_isspace c"
  shows "\<forall>c\<in>set w. \<not> py_isspace c \<Longrightarrow>
         sublist u (w @ s) \<longleftrightarrow> (\<exists>t\<in>set (split_ws_acc w s). sublist u t)"
proof (induction s arbitrary: w)
  case Nil
  with assms(1) show ?case by auto
next
  case (Cons c cs)
  show ?case
  proof (cases "py_isspace c")
    case True
    with assms(2) have "c \<notin> set u" by blast
    from sublist_sep[OF this assms(1), of w cs] Cons.IH[of "[]"] True assms(1)
    show ?thesis by auto
  next
    case False
    with Cons.prems have "\<forall>c\<in>set (w @ [c]). \<not> py_isspace c" by simp
    from Cons.IH[OF this] False show ?thesis by simp
  qed
qed

lemma sublist_py_split_ws:
  assumes "u \<noteq> []" "\<forall>c\<in>set u. \<not> py_isspace c"
  shows "sublist u s \<longleftrightarrow> (\<exists>t\<in>set (py_split_ws s). sublist u t)"
  using sublist_split_ws_acc[OF assms, of "[]" s] by (simp add: py_split_ws_def)


lemma sublist_py_join_space:
  assumes "u \<noteq> []" "CHR '' '' \<notin> set u"
  shows "sublist u (py_join '' '' ts) \<longleftrightarrow> (\<exists>t\<in>set ts. sublist u t)"
proof (induction ts rule: induct_list012)
  case 1
  with assms(1) show ?case by simp
next
  case (2 x)
  then show ?case by simp
next
  case (3 x y zs)
  from sublist_sep[OF assms(2,1), of x "py_join '' '' (y # zs)"] 3(2)
  show ?case by simp
qed


lemma sublist_join_split_ws:
  assumes "u \<noteq> []" "\<forall>c\<in>set u. \<not> py_isspace c"
  shows "sublist u (py_join '' '' (py_split_ws s)) \<longleftrightarrow> sublist u s"
proof -
  from assms(2) space_is_space have "CHR '' '' \<notin> set u" by blast
  then have "sublist u (py_join '' '' (py_split_ws s))
             \<longleftrightarrow> (\<exists>t\<in>set (py_split_ws s). sublist u t)"
    by (rule sublist_py_join_space[OF assms(1)])
  also have "\<dots> \<longleftrightarrow> sublist u s"
    by (rule sublist_py_split_ws[OF assms, symmetric])
  finally show ?thesis .
qed


lemma py_strip_Cons_plain:
  assumes "\<not> py_isspace x"
  shows "\<exists>ys. py_strip (x # xs) = x # ys"
proof -
  have "py_lstrip (x # xs) = x # xs" using assms by (simp add: py_lstrip_def)
  moreover have "\<exists>ys. py_rstrip (x # xs) = x # ys"
  proof (cases "\<forall>c\<in>set xs. py_isspace c")
    case True
    then show ?thesis using assms by (simp add: py_rstrip_def dropWhile_append)
  next
    case False
    then have "py_rstrip (x # xs) = x # rev (dropWhile py_isspace (rev xs))"
      using assms by (auto simp: py_rstrip_def dropWhile_append)
    then show ?thesis by blast
  qed
  ultimately show ?thesis by (simp add: py_strip_def)
qed


lemma prefix_hash_strip:
  assumes "\<not> py_isspace x"
  shows "prefix ''#'' (py_strip (x # xs)) \<longleftrightarrow> x = CHR ''#''"
  using py_strip_Cons_plain[OF assms, of xs] by auto

subsection \<open>Lines of a text\<close>




subsection \<open>Replacement\<close>


lemma replace_scan_self:
  "old \<noteq> [] \<Longrightarrow> replace_scan old new old = new"
  by (cases old) simp_all








subsection \<open>Stripping\<close>










subsection \<open>Substrings, whitespace and comment characters\<close>







lemma not_space_hash: "\<not> py_isspace CHR ''#''"
  by (simp add: py_isspace_def)




subsection \<open>The command markers\<close>





lemma has_marker_nonempty: "has_marker l \<Longrightarrow> l \<noteq> []"
  by (auto simp: has_marker_def)


subsection \<open>What extraction yields\<close>











lemma py_replace_self: "old \<noteq> [] \<Longrightarrow> py_replace old new old = new"
  by (simp add: py_replace_def replace_scan_self)

subsection \<open>Operations that find no record\<close>

lemma find_no_id:
  "\<forall>s\<in>set xs. sched_id s \<noteq> i \<Longrightarrow> find (\<lambda>s. sched_id s = i) xs = None"
  by (simp add: find_None_iff)

lemma delete_schedule_not_found:
  assumes "\<forall>s\<in>set (extract_iptv_schedules e (get_crontab w)). sched_id s \<noteq> schedule_id"
  shows "delete_schedule e schedule_id w = (False, w)"
  using find_no_id[OF assms] by (simp add: delete_schedule_def)

subsection \<open>Tables after a write, and the script path\<close>


lemma script_path_marker: "sublist ''check_and_off.sh'' (script_path e)"
proof -
  have "\<exists>ps. script_path e = ps @ ''check_and_off.sh''"
    by (simp add: script_path_def os_path_join_def)
  then obtain ps where "script_path e = ps @ ''check_and_off.sh''" by blast
  then show ?thesis by (simp only: sublist_append_leftI)
qed

section \<open>Toggling a schedule\<close>




section \<open>The next run of a schedule\<close>

lemma replace_hm_run_at:
  assumes "0 \<le> h" "h \<le> 23" "0 \<le> m" "m \<le> 59"
    and "dt_second c = 0" "dt_microsecond c = 0"
  shows "dt_replace_hm c h m = Inr (run_at (dt_ordinal c) h m)"
  using assms by (cases c) (simp add: dt_replace_hm_def run_at_def)

lemma next_run_loop_some:
  assumes "0 \<le> h" "h \<le> 23" "0 \<le> m" "m \<le> 59"
  shows "next_run_loop n weekdays h m c from_time = Inr (Some t) \<Longrightarrow>
         dt_second c = 0 \<Longrightarrow> dt_microsecond c = 0 \<Longrightarrow> dt_ordinal c \<le> MAXORDINAL \<Longrightarrow>
         \<exists>d. dt_ordinal c \<le> d \<and> d < dt_ordinal c + int n \<and> d \<le> MAXORDINAL
              \<and> t = run_at d h m \<and> good_day weekdays h m from_time d
              \<and> (\<forall>d'. dt_ordinal c \<le> d' \<and> d' < d \<longrightarrow> \<not> good_day weekdays h m from_time d')"
proof (induction n arbitrary: c)
  case 0
  then show ?case by simp
next
  case (Suc n)
  note rep = replace_hm_run_at[OF assms Suc.prems(2,3)]
  let ?d0 = "dt_ordinal c"
  show ?case
  proof (cases "good_day weekdays h m from_time ?d0")
    case True
    then have "next_run_loop (Suc n) weekdays h m c from_time = Inr (Some (run_at ?d0 h m))"
      by (simp add: rep good_day_def dt_weekday_def)
    with Suc.prems(1) have "t = run_at ?d0 h m" by simp
    with True Suc.prems(4) show ?thesis
      by (intro exI[of _ ?d0]) auto
  next
    case False
    then have step: "next_run_loop (Suc n) weekdays h m c from_time
                     = (case dt_add_day c of Inl e \<Rightarrow> Inl e
                        | Inr c' \<Rightarrow> next_run_loop n weekdays h m c' from_time)"
      by (auto simp: rep good_day_def dt_weekday_def)
    show ?thesis
    proof (cases "dt_add_day c")
      case (Inl e)
      with step Suc.prems(1) show ?thesis by simp
    next
      case (Inr c')
      then have c': "dt_ordinal c' = ?d0 + 1" "dt_second c' = 0" "dt_microsecond c' = 0"
        "dt_ordinal c' \<le> MAXORDINAL"
        using Suc.prems(2,3) by (auto simp: dt_add_day_def split: if_splits)
      from step Inr Suc.prems(1)
      have "next_run_loop n weekdays h m c' from_time = Inr (Some t)" by simp
      from Suc.IH[OF this c'(2,3,4)] obtain d where
        d: "dt_ordinal c' \<le> d" "d < dt_ordinal c' + int n" "d \<le> MAXORDINAL"
           "t = run_at d h m" "good_day weekdays h m from_time d"
           "\<forall>d'. dt_ordinal c' \<le> d' \<and> d' < d \<longrightarrow> \<not> good_day weekdays h m from_time d'"
        by blast
      have "\<forall>d'. ?d0 \<le> d' \<and> d' < d \<longrightarrow> \<not> good_day weekdays h m from_time d'"
      proof (intro allI impI)
        fix d' assume a: "?d0 \<le> d' \<and> d' < d"
        show "\<not> good_day weekdays h m from_time d'"
        proof (cases "d' = ?d0")
          case True
          with False show ?thesis by simp
        next
          case False
          with a c'(1) have "dt_ordinal c' \<le> d' \<and> d' < d" by simp
          with d(6) show ?thesis by blast
        qed
      qed
      with d c'(1) show ?thesis
        by (intro exI[of _ d]) auto
    qed
  qed
qed

lemma next_run_loop_none:
  assumes "0 \<le> h" "h \<le> 23" "0 \<le> m" "m \<le> 59"
  shows "(\<And>t'. next_run_loop n weekdays h m c from_time \<noteq> Inr (Some t')) \<Longrightarrow>
         dt_second c = 0 \<Longrightarrow> dt_microsecond c = 0 \<Longrightarrow>
         dt_ordinal c \<le> d \<Longrightarrow> d < dt_ordinal c + int n \<Longrightarrow> d \<le> MAXORDINAL \<Longrightarrow>
         \<not> good_day weekdays h m from_time d"
proof (induction n arbitrary: c)
  case 0
  then show ?case by simp
next
  case (Suc n)
  note rep = replace_hm_run_at[OF assms Suc.prems(2,3)]
  let ?d0 = "dt_ordinal c"
  have nogood0: "\<not> good_day weekdays h m from_time ?d0"
  proof
    assume "good_day weekdays h m from_time ?d0"
    then have "next_run_loop (Suc n) weekdays h m c from_time = Inr (Some (run_at ?d0 h m))"
      by (simp add: rep good_day_def dt_weekday_def)
    with Suc.prems(1) show False by blast
  qed
  then have step: "next_run_loop (Suc n) weekdays h m c from_time
                   = (case dt_add_day c of Inl e \<Rightarrow> Inl e
                      | Inr c' \<Rightarrow> next_run_loop n weekdays h m c' from_time)"
    by (auto simp: rep good_day_def dt_weekday_def)
  show ?case
  proof (cases "d = ?d0")
    case True
    with nogood0 show ?thesis by simp
  next
    case False
    with Suc.prems(4,6) have "?d0 + 1 \<le> MAXORDINAL" by simp
    then obtain c' where add: "dt_add_day c = Inr c'" and
      c': "dt_ordinal c' = ?d0 + 1" "dt_second c' = 0" "dt_microsecond c' = 0"
      using Suc.prems(2,3) by (auto simp: dt_add_day_def)
    from step add Suc.prems(1)
    have no: "\<And>t'. next_run_loop n weekdays h m c' from_time \<noteq> Inr (Some t')" by simp
    from False Suc.prems(4,5) c'(1)
    have rng: "dt_ordinal c' \<le> d" "d < dt_ordinal c' + int n" by simp_all
    show ?thesis
      by (rule Suc.IH[OF no c'(2,3) rng Suc.prems(6)])
  qed
qed

lemma candidate_is_run_at:
  "spec_run_candidate weekdays h m from_time t \<Longrightarrow> t = run_at (dt_ordinal t) h m"
  by (cases t) (simp add: spec_run_candidate_def run_at_def)

lemma candidate_good_day:
  "spec_run_candidate weekdays h m from_time t \<Longrightarrow>
   good_day weekdays h m from_time (dt_ordinal t)"
  using candidate_is_run_at[of weekdays h m from_time t]
  by (simp add: spec_run_candidate_def good_day_def dt_weekday_def)

lemma run_at_less: "dt_less (run_at d' h m) (run_at d h m) \<longleftrightarrow> d' < d"
  by (simp add: dt_less_def dt_key_def run_at_def)

lemma next_run_loop_spec:
  assumes hm: "0 \<le> h" "h \<le> 23" "0 \<le> m" "m \<le> 59"
    and vfrom: "valid_datetime from_time"
  shows "case next_run_loop 8 weekdays h m
                (from_time\<lparr>dt_second := 0, dt_microsecond := 0\<rparr>) from_time of
           Inr (Some t) \<Rightarrow> spec_run_candidate weekdays h m from_time t
                           \<and> (\<forall>t'. spec_run_candidate weekdays h m from_time t'
                                    \<longrightarrow> \<not> dt_less t' t)
         | _ \<Rightarrow> (\<forall>t'. \<not> spec_run_candidate weekdays h m from_time t')"
proof -
  let ?c = "from_time\<lparr>dt_second := 0, dt_microsecond := 0\<rparr>"
  let ?r = "next_run_loop 8 weekdays h m ?c from_time"
  have c: "dt_second ?c = 0" "dt_microsecond ?c = 0" "dt_ordinal ?c = dt_ordinal from_time"
    "dt_ordinal ?c \<le> MAXORDINAL" "1 \<le> dt_ordinal from_time"
    using vfrom by (simp_all add: valid_datetime_def)
  show ?thesis
  proof (cases "\<exists>t. ?r = Inr (Some t)")
    case True
    then obtain t where t: "?r = Inr (Some t)" by blast
    from next_run_loop_some[OF hm t c(1,2,4)] obtain d where
      d: "dt_ordinal ?c \<le> d" "d < dt_ordinal ?c + int 8" "d \<le> MAXORDINAL"
         "t = run_at d h m" "good_day weekdays h m from_time d"
         "\<forall>d'. dt_ordinal ?c \<le> d' \<and> d' < d \<longrightarrow> \<not> good_day weekdays h m from_time d'"
      by blast
    have cand: "spec_run_candidate weekdays h m from_time t"
      using d(1-5) c(3,5) hm
      by (simp add: spec_run_candidate_def valid_datetime_def good_day_def run_at_def
          dt_weekday_def)
    have least: "\<not> dt_less t' t" if t': "spec_run_candidate weekdays h m from_time t'" for t'
    proof
      assume less: "dt_less t' t"
      have eq: "t' = run_at (dt_ordinal t') h m" by (rule candidate_is_run_at[OF t'])
      from less have "dt_less (run_at (dt_ordinal t') h m) (run_at d h m)"
        using eq d(4) by simp
      then have "dt_ordinal t' < d" by (simp add: run_at_less)
      moreover have "dt_ordinal ?c \<le> dt_ordinal t'"
        using t' by (simp add: spec_run_candidate_def)
      ultimately have "\<not> good_day weekdays h m from_time (dt_ordinal t')"
        using d(6) by blast
      with candidate_good_day[OF t'] show False by blast
    qed
    from cand least t show ?thesis by simp
  next
    case False
    then have no: "\<And>t'. ?r \<noteq> Inr (Some t')" by blast
    have none: "\<not> spec_run_candidate weekdays h m from_time t'" for t'
    proof
      assume t': "spec_run_candidate weekdays h m from_time t'"
      then have rng: "dt_ordinal ?c \<le> dt_ordinal t'" "dt_ordinal t' < dt_ordinal ?c + int 8"
        "dt_ordinal t' \<le> MAXORDINAL"
        by (simp_all add: spec_run_candidate_def valid_datetime_def)
      from next_run_loop_none[OF hm no c(1,2) rng] candidate_good_day[OF t']
      show False by blast
    qed
    from False none show ?thesis
      by (auto split: sum.splits option.splits)
  qed
qed

text \<open>
  C2. For a record whose hour and minute read as integers \<open>h\<close> in 0..23 and \<open>m\<close> in
  0..59 and whose weekday field parses to the set \<open>weekdays\<close>, and for every instant
  \<open>from_time\<close>: \<open>calculate_next_run\<close> returns the earliest instant strictly later than
  \<open>from_time\<close>, among the 8 calendar days starting at the day of \<open>from_time\<close>, whose
  weekday is in \<open>weekdays\<close> and whose time of day is \<open>h:m:00\<close>, and returns nothing
  when there is no such instant. Changing the day and month fields of the record does
  not change the result.
\<close>

theorem calculate_next_run_spec:
  assumes "py_int (hour s) = Inr h" "0 \<le> h" "h \<le> 23"
    and "py_int (minute s) = Inr m" "0 \<le> m" "m \<le> 59"
    and "parse_weekday (weekday s) = Inr weekdays"
    and "valid_datetime from_time"
  shows "(case calculate_next_run s from_time of
            Some t \<Rightarrow> spec_run_candidate weekdays h m from_time t
                      \<and> (\<forall>t'. spec_run_candidate weekdays h m from_time t'
                               \<longrightarrow> \<not> dt_less t' t)
          | None \<Rightarrow> (\<forall>t'. \<not> spec_run_candidate weekdays h m from_time t'))
         \<and> calculate_next_run (s\<lparr>day := day', month := month'\<rparr>) from_time
           = calculate_next_run s from_time"
proof
  have run: "calculate_next_run s from_time
             = (case next_run_loop 8 weekdays h m
                       (from_time\<lparr>dt_second := 0, dt_microsecond := 0\<rparr>) from_time of
                  Inl e \<Rightarrow> None | Inr r \<Rightarrow> r)"
    using assms(1,4,7) by (simp add: calculate_next_run_def next_run_try_def)
  show "case calculate_next_run s from_time of
            Some t \<Rightarrow> spec_run_candidate weekdays h m from_time t
                      \<and> (\<forall>t'. spec_run_candidate weekdays h m from_time t'
                               \<longrightarrow> \<not> dt_less t' t)
          | None \<Rightarrow> (\<forall>t'. \<not> spec_run_candidate weekdays h m from_time t')"
    using next_run_loop_spec[OF assms(2,3,5,6,8), of weekdays]
    unfolding run by (auto split: sum.splits option.splits)
  show "calculate_next_run (s\<lparr>day := day', month := month'\<rparr>) from_time
        = calculate_next_run s from_time"
    by (simp add: calculate_next_run_def next_run_try_def cong: sum.case_cong)
qed


theorem calculate_next_run_spec_witness:
  "py_int (hour sample_schedule) = Inr 17 \<and> py_int (minute sample_schedule) = Inr 0
   \<and> parse_weekday (weekday sample_schedule) = Inr [0, 1, 2, 3, 4]
   \<and> valid_datetime sample_from
   \<and> calculate_next_run sample_schedule sample_from = Some (run_at 739924 17 0)
   \<and> spec_run_candidate [0, 1, 2, 3, 4] 17 0 sample_from (run_at 739924 17 0)
   \<and> calculate_next_run (sample_schedule\<lparr>day := ''1'', month := ''6''\<rparr>) sample_from
       = Some (run_at 739924 17 0)"
proof -
  have h: "py_int (hour sample_schedule) = Inr 17" by code_simp
  have m: "py_int (minute sample_schedule) = Inr 0" by code_simp
  have w: "parse_weekday (weekday sample_schedule) = Inr [0, 1, 2, 3, 4]" by code_simp
  have v: "valid_datetime sample_from" by code_simp
  have r: "calculate_next_run sample_schedule sample_from = Some (run_at 739924 17 0)"
    by code_simp
  note spec = calculate_next_run_spec[OF h _ _ m _ _ w v, where day' = "''1''" and month' = "''6''"]
  from spec r h m w v show ?thesis by simp
qed

section \<open>Weekday sets: what \<open>parse_weekday\<close> yields\<close>

lemma parse_weekday_range:
  assumes "py_int sa = Inr a" "py_int sb = Inr b"
    and "CHR ''-'' \<notin> set sa" "CHR ''-'' \<notin> set sb"
    and "CHR '','' \<notin> set sa" "CHR '','' \<notin> set sb"
  shows "parse_weekday (sa @ ''-'' @ sb) = Inr (map cron_to_python_weekday [a..b])"
proof -
  have ne: "sa @ ''-'' @ sb \<noteq> ''*''"
    by (cases sa) (auto simp: Cons_eq_append_conv)
  have nocomma: "CHR '','' \<notin> set (sa @ ''-'' @ sb)"
    using assms by simp
  have part: "parse_weekday_part (sa @ ''-'' @ sb) = Inr (map cron_to_python_weekday [a..b])"
    using assms
    by (simp add: parse_weekday_part_def sublist_single py_split_on_append py_split_on_no_sep)
  show ?thesis
    unfolding parse_weekday_def py_split_on_no_sep[OF nocomma] using ne part by simp
qed

lemma parse_weekday_parts_all:
  "\<forall>p\<in>set ps. parse_weekday_part p = Inr (vs p) \<Longrightarrow>
   parse_weekday_parts acc ps = Inr (acc @ concat (map vs ps))"
  by (induction ps arbitrary: acc) auto

lemma parse_weekday_single_part:
  assumes "CHR '','' \<notin> set p" "p \<noteq> ''*''"
  shows "parse_weekday p = (case parse_weekday_part p of Inl e \<Rightarrow> Inl e | Inr ws \<Rightarrow> Inr ws)"
  using assms by (simp add: parse_weekday_def py_split_on_no_sep split: sum.splits)

lemma py_join_not_star:
  assumes "ps \<noteq> []" "\<forall>p\<in>set ps. p \<noteq> ''*''" 
  shows "py_join '','' ps \<noteq> ''*''"
proof (cases ps)
  case Nil
  with assms show ?thesis by simp
next
  case (Cons x xs)
  show ?thesis
  proof (cases xs)
    case Nil
    with Cons assms show ?thesis by simp
  next
    case (Cons y ys)
    with \<open>ps = x # xs\<close> show ?thesis
      by (cases x) (auto simp: Cons_eq_append_conv)
  qed
qed

lemma parse_weekday_comma_list:
  assumes "ps \<noteq> []"
    and "\<forall>p\<in>set ps. CHR '','' \<notin> set p \<and> p \<noteq> ''*'' \<and> parse_weekday p = Inr (vs p)"
  shows "parse_weekday (py_join '','' ps) = Inr (concat (map vs ps))"
proof -
  have parts: "\<forall>p\<in>set ps. parse_weekday_part p = Inr (vs p)"
  proof
    fix p assume "p \<in> set ps"
    with assms(2) have "CHR '','' \<notin> set p" "p \<noteq> ''*''" "parse_weekday p = Inr (vs p)"
      by auto
    then show "parse_weekday_part p = Inr (vs p)"
      by (simp add: parse_weekday_single_part split: sum.splits)
  qed
  have "py_split_on CHR '','' (py_join '','' ps) = ps"
    using assms by (intro py_split_on_join) auto
  moreover have "py_join '','' ps \<noteq> ''*''"
    using assms by (intro py_join_not_star) auto
  ultimately show ?thesis
    using parse_weekday_parts_all[OF parts, of "[]"] by (simp add: parse_weekday_def)
qed

text \<open>
  C3. \<open>parse_weekday\<close> of \<open>*\<close> is the seven internal weekdays 0..6. A dash range
  whose two sides read as the integers \<open>a\<close> and \<open>b\<close> yields the conversions of
  \<open>a, a+1, ..., b\<close> in that order, where the conversion sends the external 0 to 6
  and the external \<open>n\<close> in 1..6 to \<open>n - 1\<close>; so \<open>1-5\<close> yields 0,1,2,3,4. A comma
  list of terms (single values or dash ranges) yields the terms' results one after
  another, hence their union as a set.
\<close>

theorem parse_weekday_spec:
  "parse_weekday ''*'' = Inr [0, 1, 2, 3, 4, 5, 6]
   \<and> (\<forall>sa sb a b.
        py_int sa = Inr a \<and> py_int sb = Inr b
        \<and> CHR ''-'' \<notin> set sa \<and> CHR ''-'' \<notin> set sb
        \<and> CHR '','' \<notin> set sa \<and> CHR '','' \<notin> set sb
        \<longrightarrow> parse_weekday (sa @ ''-'' @ sb) = Inr (map cron_to_python_weekday [a..b]))
   \<and> cron_to_python_weekday 0 = 6
   \<and> (\<forall>n. 1 \<le> n \<and> n \<le> 6 \<longrightarrow> cron_to_python_weekday n = n - 1)
   \<and> parse_weekday ''1-5'' = Inr [0, 1, 2, 3, 4]
   \<and> (\<forall>ps vs.
        ps \<noteq> []
        \<and> (\<forall>p\<in>set ps. CHR '','' \<notin> set p \<and> p \<noteq> ''*'' \<and> parse_weekday p = Inr (vs p))
        \<longrightarrow> parse_weekday (py_join '','' ps) = Inr (concat (map vs ps)))"
proof (intro conjI allI impI)
  show "parse_weekday ''*'' = Inr [0, 1, 2, 3, 4, 5, 6]"
    by (simp add: parse_weekday_def upto.simps)
  show "cron_to_python_weekday 0 = 6"
    by (simp add: cron_to_python_weekday_def)
  show "parse_weekday ''1-5'' = Inr [0, 1, 2, 3, 4]"
    by code_simp
next
  fix n :: int assume "1 \<le> n \<and> n \<le> 6"
  then show "cron_to_python_weekday n = n - 1"
    by (simp add: cron_to_python_weekday_def)
next
  fix sa sb a b
  assume "py_int sa = Inr a \<and> py_int sb = Inr b
        \<and> CHR ''-'' \<notin> set sa \<and> CHR ''-'' \<notin> set sb
        \<and> CHR '','' \<notin> set sa \<and> CHR '','' \<notin> set sb"
  then show "parse_weekday (sa @ ''-'' @ sb) = Inr (map cron_to_python_weekday [a..b])"
    by (intro parse_weekday_range) auto
next
  fix ps :: "string list" and vs
  assume "ps \<noteq> []
        \<and> (\<forall>p\<in>set ps. CHR '','' \<notin> set p \<and> p \<noteq> ''*'' \<and> parse_weekday p = Inr (vs p))"
  then show "parse_weekday (py_join '','' ps) = Inr (concat (map vs ps))"
    by (intro parse_weekday_comma_list) auto
qed

theorem parse_weekday_spec_witness:
  "parse_weekday ''2-4'' = Inr [1, 2, 3]
   \<and> cron_to_python_weekday 3 = 2
   \<and> parse_weekday ''1-3,0,5'' = Inr [0, 1, 2, 6, 4]"
proof -
  have i2: "py_int ''2'' = Inr 2" by code_simp
  have i4: "py_int ''4'' = Inr 4" by code_simp
  note range_part = parse_weekday_spec[THEN conjunct2, THEN conjunct1, rule_format]
  note conv_part = parse_weekday_spec[THEN conjunct2, THEN conjunct2, THEN conjunct2,
      THEN conjunct1, rule_format]
  note list_part = parse_weekday_spec[THEN conjunct2, THEN conjunct2, THEN conjunct2,
      THEN conjunct2, THEN conjunct2, rule_format]
  have r: "parse_weekday (''2'' @ ''-'' @ ''4'') = Inr (map cron_to_python_weekday [2..4])"
    using i2 i4 by (intro range_part) simp
  have c: "cron_to_python_weekday 3 = 3 - 1"
    by (intro conv_part) simp
  let ?vs = "\<lambda>p. if p = ''1-3'' then [0, 1, 2] else if p = ''0'' then [6] else [4::int]"
  have p1: "parse_weekday ''1-3'' = Inr [0, 1, 2]" by code_simp
  have p2: "parse_weekday ''0'' = Inr [6]" by code_simp
  have p3: "parse_weekday ''5'' = Inr [4]" by code_simp
  have hyp: "[''1-3'', ''0'', ''5''] \<noteq> []
     \<and> (\<forall>p\<in>set [''1-3'', ''0'', ''5''].
           CHR '','' \<notin> set p \<and> p \<noteq> ''*'' \<and> parse_weekday p = Inr (?vs p))"
    using p1 p2 p3 by simp
  have l: "parse_weekday (py_join '','' [''1-3'', ''0'', ''5''])
           = Inr (concat (map ?vs [''1-3'', ''0'', ''5'']))"
    using hyp by (intro list_part) blast
  have u: "[2..4] = [2, 3, 4::int]" by (simp add: upto.simps)
  show ?thesis
    using r c l unfolding u by (simp add: cron_to_python_weekday_def)
qed

section \<open>Adding a schedule and deleting it again\<close>









section \<open>Toggling twice\<close>










section \<open>Operations on an id that no record has\<close>

text \<open>
  C6. When no record extracted from the table has the given id, \<open>delete_schedule\<close>
  returns false and \<open>update_schedule\<close> returns false; neither calls \<open>set_crontab\<close>
  (the count of writes is the same), so the add is not attempted and the table is
  as it was.
\<close>

theorem not_found_writes_nothing:
  assumes "\<forall>s\<in>set (extract_iptv_schedules e (get_crontab w)). sched_id s \<noteq> schedule_id"
  shows "delete_schedule e schedule_id w = (False, w)
         \<and> update_schedule e schedule_id upd w = (False, w)"
  using delete_schedule_not_found[OF assms] by (simp add: update_schedule_def)

theorem not_found_writes_nothing_witness:
  "map sched_id (extract_iptv_schedules sample_env (get_crontab sample_world)) = [42, 38]
   \<and> delete_schedule sample_env 7 sample_world = (False, sample_world)
   \<and> update_schedule sample_env 7
        \<lparr>u_minute = Some ''5'', u_hour = None, u_day = None, u_month = None,
         u_weekday = None, u_action = Some ''on'', u_enabled = None\<rparr> sample_world
       = (False, sample_world)"
proof -
  have ids: "map sched_id (extract_iptv_schedules sample_env (get_crontab sample_world))
             = [42, 38]"
    by code_simp
  have hyp: "\<forall>s\<in>set (extract_iptv_schedules sample_env (get_crontab sample_world)).
               sched_id s \<noteq> 7"
  proof
    fix s assume "s \<in> set (extract_iptv_schedules sample_env (get_crontab sample_world))"
    then have "sched_id s \<in> set (map sched_id
                 (extract_iptv_schedules sample_env (get_crontab sample_world)))"
      by simp
    then show "sched_id s \<noteq> 7" unfolding ids by auto
  qed
  show ?thesis
    using ids not_found_writes_nothing[OF hyp] by simp
qed

section \<open>Listing the schedules in order of their next run\<close>

lemma next_run_loop_bounds:
  "next_run_loop n weekdays h m c from_time = Inr (Some t) \<Longrightarrow>
   dt_ordinal c \<le> MAXORDINAL \<Longrightarrow> dt_second c = 0 \<Longrightarrow>
   dt_ordinal t \<le> MAXORDINAL \<and> dt_hour t \<le> 23 \<and> dt_minute t \<le> 59 \<and> dt_second t = 0"
proof (induction n arbitrary: c)
  case 0
  then show ?case by simp
next
  case (Suc n)
  have next_day: "dt_ordinal t \<le> MAXORDINAL \<and> dt_hour t \<le> 23 \<and> dt_minute t \<le> 59
                  \<and> dt_second t = 0"
    if "dt_add_day c = Inr c'" "next_run_loop n weekdays h m c' from_time = Inr (Some t)"
    for c'
  proof -
    from that(1) Suc.prems(3) have "dt_ordinal c' \<le> MAXORDINAL" "dt_second c' = 0"
      by (auto simp: dt_add_day_def split: if_splits)
    with Suc.IH[OF that(2)] show ?thesis by simp
  qed
  from Suc.prems show ?case
    by (auto simp: dt_replace_hm_def split: if_splits sum.splits dest: next_day)
qed

lemma calculate_next_run_before_max:
  assumes "calculate_next_run s now = Some t" "valid_datetime now"
  shows "dt_key t < dt_key datetime_max"
proof -
  from assms(1) obtain weekdays h m where
    "next_run_loop 8 weekdays h m (now\<lparr>dt_second := 0, dt_microsecond := 0\<rparr>) now
     = Inr (Some t)"
    by (auto simp: calculate_next_run_def next_run_try_def split: sum.splits)
  from next_run_loop_bounds[OF this] assms(2)
  have "dt_ordinal t \<le> MAXORDINAL \<and> dt_hour t \<le> 23 \<and> dt_minute t \<le> 59 \<and> dt_second t = 0"
    by (simp add: valid_datetime_def)
  then show ?thesis
    by (auto simp: dt_key_def datetime_max_def)
qed

lemma schedule_sort_key_max_iff:
  assumes "valid_datetime now"
  shows "schedule_sort_key now s = dt_key datetime_max \<longleftrightarrow> calculate_next_run s now = None"
  using calculate_next_run_before_max[OF _ assms, of s]
  by (auto simp: schedule_sort_key_def split: option.splits)

lemma schedule_sort_key_le_max:
  assumes "valid_datetime now"
  shows "schedule_sort_key now s \<le> dt_key datetime_max"
  using calculate_next_run_before_max[OF _ assms, of s]
  by (auto simp: schedule_sort_key_def split: option.splits)

text \<open>
  C7. For every table and every reference instant, \<open>get_all_schedules\<close> returns exactly
  the records extracted from the table (as a multiset), in ascending order of the sort
  key, which is the next run of a record when it has one and the largest instant
  otherwise, strictly above every next run; so once a record without next run occurs,
  only such records follow. Records with equal keys keep their order of the table.
\<close>

theorem get_all_schedules_sorted:
  assumes "valid_datetime now"
  shows "mset (get_all_schedules e now w) = mset (extract_iptv_schedules e (get_crontab w))
    \<and> sorted (map (schedule_sort_key now) (get_all_schedules e now w))
    \<and> (\<forall>k. filter (\<lambda>s. schedule_sort_key now s = k) (get_all_schedules e now w)
            = filter (\<lambda>s. schedule_sort_key now s = k)
                (extract_iptv_schedules e (get_crontab w)))
    \<and> (\<forall>i j. i < j \<and> j < length (get_all_schedules e now w)
            \<and> calculate_next_run (get_all_schedules e now w ! i) now = None
            \<longrightarrow> calculate_next_run (get_all_schedules e now w ! j) now = None)
    \<and> (\<forall>s t. calculate_next_run s now = Some t
            \<longrightarrow> schedule_sort_key now s = dt_key t \<and> dt_key t < dt_key datetime_max)"
proof (intro conjI allI impI)
  let ?ys = "get_all_schedules e now w"
  show "mset ?ys = mset (extract_iptv_schedules e (get_crontab w))"
    by (simp add: get_all_schedules_def)
  show srt: "sorted (map (schedule_sort_key now) ?ys)"
    by (simp add: get_all_schedules_def)
  show "filter (\<lambda>s. schedule_sort_key now s = k) ?ys
        = filter (\<lambda>s. schedule_sort_key now s = k) (extract_iptv_schedules e (get_crontab w))"
    for k
    by (simp add: get_all_schedules_def sort_key_stable)
  show "calculate_next_run (?ys ! j) now = None"
    if "i < j \<and> j < length ?ys \<and> calculate_next_run (?ys ! i) now = None" for i j
  proof -
    from that have ij: "i < j" "j < length ?ys" "i < length ?ys" by simp_all
    from srt ij have "schedule_sort_key now (?ys ! i) \<le> schedule_sort_key now (?ys ! j)"
      using sorted_nth_mono[of "map (schedule_sort_key now) ?ys" i j] by simp
    moreover have "schedule_sort_key now (?ys ! i) = dt_key datetime_max"
      using that by (simp add: schedule_sort_key_max_iff[OF assms])
    ultimately have "schedule_sort_key now (?ys ! j) = dt_key datetime_max"
      using schedule_sort_key_le_max[OF assms, of "?ys ! j"] by simp
    then show ?thesis by (simp add: schedule_sort_key_max_iff[OF assms])
  qed
  show "schedule_sort_key now s = dt_key t" if "calculate_next_run s now = Some t" for s t
    using that by (simp add: schedule_sort_key_def)
  show "dt_key t < dt_key datetime_max" if "calculate_next_run s now = Some t" for s t
    using that assms by (rule calculate_next_run_before_max)
qed


theorem get_all_schedules_sorted_witness:
  "valid_datetime sample_from
   \<and> map raw (get_all_schedules sample_env sample_from sample_world_unsorted)
       = [''# 30 7 * * * /sbin/ip link set ens1 up'',
          ''0 17 * * 1-5 /opt/iptvctl/check_and_off.sh'',
          ''0 17 * * 9 /opt/iptvctl/check_and_off.sh'']
   \<and> mset (get_all_schedules sample_env sample_from sample_world_unsorted)
       = mset (extract_iptv_schedules sample_env (get_crontab sample_world_unsorted))
   \<and> sorted (map (schedule_sort_key sample_from)
         (get_all_schedules sample_env sample_from sample_world_unsorted))"
proof -
  have v: "valid_datetime sample_from" by code_simp
  have r: "map raw (get_all_schedules sample_env sample_from sample_world_unsorted)
       = [''# 30 7 * * * /sbin/ip link set ens1 up'',
          ''0 17 * * 1-5 /opt/iptvctl/check_and_off.sh'',
          ''0 17 * * 9 /opt/iptvctl/check_and_off.sh'']"
    by code_simp
  from get_all_schedules_sorted[OF v, of sample_env sample_world_unsorted] v r
  show ?thesis by blast
qed

section \<open>What the operations leave alone\<close>





















section \<open>The override timer and the recurring off action: both implementations\<close>

lemma app_should_skip_iff:
  "app_should_skip_crontab_off timer_end_time now
   \<longleftrightarrow> (\<exists>t. timer_end_time = Some t \<and> t - now > 0)"
  by (cases timer_end_time) (simp_all add: app_should_skip_crontab_off_def)

lemma time_not_global: "''time'' \<notin> set crontab_manager_globals"
  by (simp add: crontab_manager_globals_def)

text \<open>
  C9. \<open>should_skip_crontab_off\<close> is to return true exactly when the override timer is
  active with time left, without raising, in both implementations. The one of
  crontab_manager.py does not: the module never imports \<open>time\<close>, so whenever the end
  instant is set the call raises NameError, also where the one of app.py returns
  true (end instant 600, clock 0).
\<close>

theorem cm_should_skip_raises:
  "cm_should_skip_crontab_off (Some t) now = Inl NameError
   \<and> cm_should_skip_crontab_off None now = Inr False
   \<and> app_should_skip_crontab_off (Some 600) 0 = True"
  by (simp add: cm_should_skip_crontab_off_def time_not_global app_should_skip_crontab_off_def)

section \<open>Building a job line and parsing it back\<close>

lemma plain_fieldD:
  "plain_field f \<Longrightarrow> \<exists>x xs. f = x # xs \<and> \<not> py_isspace x"
  by (cases f) (auto simp: plain_field_def)

lemma tokens_nonempty:
  assumes "sublist u s" "plain_field u"
  shows "py_split_ws s \<noteq> []"
proof -
  from assms(2) have "u \<noteq> []" "\<forall>c\<in>set u. \<not> py_isspace c"
    by (auto simp: plain_field_def list_ex_iff)
  from sublist_py_split_ws[OF this, of s] assms(1) show ?thesis by auto
qed

lemma job_line_tokens:
  assumes "plain_field m" "plain_field h" "plain_field d" "plain_field mo" "plain_field w"
  shows "py_split_ws (m @ '' '' @ h @ '' '' @ d @ '' '' @ mo @ '' '' @ w @ '' '' @ cmd)
         = [m, h, d, mo, w] @ py_split_ws cmd"
  using assms by (simp add: py_split_ws_token space_is_space)

lemma up_plain: "plain_field ''up''"
  by (simp add: plain_field_def py_isspace_def)

lemma sublist_up_command:
  "sublist ''up'' (py_join '' '' (py_split_ws cmd)) \<longleftrightarrow> sublist ''up'' cmd"
  by (rule sublist_join_split_ws) (simp_all add: py_isspace_def)

lemma parse_job_line:
  fixes en :: bool
  assumes f: "plain_field m" "plain_field h" "plain_field d" "plain_field mo" "plain_field w"
    and nh: "\<not> prefix ''#'' m"
    and cmd: "py_split_ws cmd \<noteq> []"
  defines "body \<equiv> m @ '' '' @ h @ '' '' @ d @ '' '' @ mo @ '' '' @ w @ '' '' @ cmd"
  defines "line \<equiv> (if en then body else ''# '' @ body)"
  shows "parse_crontab_line e line =
         Some \<lparr>sched_id = py_hash e line AND 0x7FFFFFFF,
               minute = m, hour = h, day = d, month = mo, weekday = w,
               action = (if sublist ''up'' cmd then ''on'' else ''off''),
               command = py_join '' '' (py_split_ws cmd),
               enabled = en, raw = line\<rparr>"
proof -
  from plain_fieldD[OF f(1)] obtain x xs where m: "m = x # xs" "\<not> py_isspace x" by blast
  with nh have x: "x \<noteq> CHR ''#''" by simp
  from m(2) space_is_space have x2: "x \<noteq> CHR '' ''" by auto
  obtain rest where body: "body = x # rest" by (simp add: body_def m(1))
  have lstrip: "py_lstrip_chars ''# '' line = body"
    using x x2 by (simp add: line_def body py_lstrip_chars_def)
  have toks: "py_split_ws (py_strip body) = [m, h, d, mo, w] @ py_split_ws cmd"
    unfolding py_split_ws_strip body_def by (rule job_line_tokens[OF f])
  have en: "(\<not> prefix ''#'' (py_strip line)) = en"
  proof (cases en)
    case True
    then show ?thesis
      using prefix_hash_strip[OF m(2), of rest] x by (simp add: line_def body)
  next
    case False
    then show ?thesis
      using prefix_hash_strip[OF not_space_hash, of "CHR '' '' # body"] by (simp add: line_def)
  qed
  have len: "\<not> length ([m, h, d, mo, w] @ py_split_ws cmd) < 6"
    using cmd by (cases "py_split_ws cmd") simp_all
  show ?thesis
    unfolding parse_crontab_line_def lstrip toks Let_def en
    using len by (simp add: sublist_up_command)
qed

lemma marker_plain: "plain_field ''check_and_off.sh''"
  by (simp add: plain_field_def py_isspace_def)

text \<open>
  C10 (as amended). For every schedule whose five time fields are non-empty and free of
  whitespace, whose minute field does not begin with \<open>#\<close>, whose action is on or off,
  whose off-action command path does not contain \<open>up\<close> (when the action is off) and
  whose on-action command contains \<open>up\<close> (when the action is on): parsing the line
  built from it succeeds and gives back the same minute, hour, day, month, weekday,
  enabled flag and action.
\<close>

theorem parse_build_roundtrip:
  assumes "plain_field (d_minute sch)" "plain_field (d_hour sch)" "plain_field (d_day sch)"
    "plain_field (d_month sch)" "plain_field (d_weekday sch)"
    and "\<not> prefix ''#'' (d_minute sch)"
    and "d_action sch = Some ''on'' \<or> d_action sch = Some ''off''"
    and "d_action sch = Some ''off'' \<longrightarrow> \<not> sublist ''up'' (script_path e)"
    and "d_action sch = Some ''on'' \<longrightarrow>
           sublist ''up'' (case d_command sch of
                             None \<Rightarrow> ''/sbin/ip link set ens1 up'' | Some c \<Rightarrow> c)"
  shows "\<exists>r. parse_crontab_line e (build_crontab_line e sch) = Some r
             \<and> minute r = d_minute sch \<and> hour r = d_hour sch \<and> day r = d_day sch
             \<and> month r = d_month sch \<and> weekday r = d_weekday sch
             \<and> enabled r = (case d_enabled sch of None \<Rightarrow> True | Some b \<Rightarrow> b)
             \<and> Some (action r) = d_action sch"
proof -
  define cmd where "cmd = (if d_action sch = Some ''off'' then script_path e
                           else (case d_command sch of
                                   None \<Rightarrow> ''/sbin/ip link set ens1 up'' | Some c \<Rightarrow> c))"
  define en where "en = (case d_enabled sch of None \<Rightarrow> True | Some b \<Rightarrow> b)"
  have build: "build_crontab_line e sch =
     (if en then d_minute sch @ '' '' @ d_hour sch @ '' '' @ d_day sch @ '' '' @ d_month sch
                 @ '' '' @ d_weekday sch @ '' '' @ cmd
      else ''# '' @ d_minute sch @ '' '' @ d_hour sch @ '' '' @ d_day sch @ '' '' @ d_month sch
                 @ '' '' @ d_weekday sch @ '' '' @ cmd)"
    by (simp add: build_crontab_line_def cmd_def en_def Let_def)
  have toks: "py_split_ws cmd \<noteq> []"
  proof (cases "d_action sch = Some ''off''")
    case True
    then show ?thesis
      using tokens_nonempty[OF script_path_marker marker_plain] by (simp add: cmd_def)
  next
    case False
    with assms(7,9) have "sublist ''up'' cmd" by (auto simp: cmd_def)
    then show ?thesis by (rule tokens_nonempty[OF _ up_plain])
  qed
  have act: "Some (if sublist ''up'' cmd then ''on'' else ''off'') = d_action sch"
    using assms(7,8,9) by (auto simp: cmd_def)
  show ?thesis
    unfolding build
    using parse_job_line[OF assms(1-6) toks, where en = en and e = e] act by (auto simp: en_def)
qed

theorem parse_build_roundtrip_witness:
  "plain_field (d_minute sample_dict) \<and> \<not> prefix ''#'' (d_minute sample_dict)
   \<and> d_action sample_dict = Some ''on''
   \<and> (\<exists>r. parse_crontab_line sample_env (build_crontab_line sample_env sample_dict) = Some r
             \<and> minute r = d_minute sample_dict \<and> hour r = d_hour sample_dict
             \<and> day r = d_day sample_dict
             \<and> month r = d_month sample_dict \<and> weekday r = d_weekday sample_dict
             \<and> enabled r = (case d_enabled sample_dict of None \<Rightarrow> True | Some b \<Rightarrow> b)
             \<and> Some (action r) = d_action sample_dict)"
proof -
  have f: "plain_field (d_minute sample_dict)" "plain_field (d_hour sample_dict)"
    "plain_field (d_day sample_dict)" "plain_field (d_month sample_dict)"
    "plain_field (d_weekday sample_dict)"
    by code_simp+
  have nh: "\<not> prefix ''#'' (d_minute sample_dict)" by code_simp
  have a: "d_action sample_dict = Some ''on''" by code_simp
  then have a1: "d_action sample_dict = Some ''on'' \<or> d_action sample_dict = Some ''off''"
    by simp
  have a2: "d_action sample_dict = Some ''off'' \<longrightarrow> \<not> sublist ''up'' (script_path sample_env)"
    using a by simp
  have up: "sublist ''up'' (case d_command sample_dict of
                             None \<Rightarrow> ''/sbin/ip link set ens1 up'' | Some c \<Rightarrow> c)"
    by code_simp
  then have a3: "d_action sample_dict = Some ''on'' \<longrightarrow>
           sublist ''up'' (case d_command sample_dict of
                             None \<Rightarrow> ''/sbin/ip link set ens1 up'' | Some c \<Rightarrow> c)"
    by simp
  from parse_build_roundtrip[OF f nh a1 a2 a3] f(1) nh a show ?thesis by blast
qed

text \<open>
  Without the condition on the first character the claim fails: the minute field \<open>#5\<close>
  is non-empty and free of whitespace, the command contains \<open>up\<close> and the script path
  does not, yet the line built for the enabled schedule parses as disabled, with
  minute \<open>5\<close>.
\<close>

theorem parse_build_roundtrip_counterexample:
  "plain_field (d_minute hash_minute_dict) \<and> plain_field (d_hour hash_minute_dict)
   \<and> plain_field (d_day hash_minute_dict) \<and> plain_field (d_month hash_minute_dict)
   \<and> plain_field (d_weekday hash_minute_dict)
   \<and> d_action hash_minute_dict = Some ''on''
   \<and> sublist ''up'' (the (d_command hash_minute_dict))
   \<and> \<not> sublist ''up'' (script_path sample_env)
   \<and> d_enabled hash_minute_dict = Some True
   \<and> map_option enabled
         (parse_crontab_line sample_env (build_crontab_line sample_env hash_minute_dict))
       = Some False
   \<and> map_option minute
         (parse_crontab_line sample_env (build_crontab_line sample_env hash_minute_dict))
       = Some ''5''"
  by code_simp

end
